theory Spec2Isabelle
  imports Main "HOL-Library.Sublist"
begin

section \<open>JavaScript values used by the manifest code\<close>

text \<open>
  Strings are lists of 8-bit characters; the string functions below act on the ASCII
  range, which is what passport fields hold. An optional property of an object
  (\<^verbatim>\<open>title?: string\<close>) is a \<open>string option\<close>, \<open>None\<close> standing for
  \<^verbatim>\<open>undefined\<close>.
\<close>

definition truthy :: "string option \<Rightarrow> bool" where
  \<comment> \<open>JavaScript truthiness of a string-or-undefined: undefined and the empty string are falsy.\<close>
  "truthy v = (case v of None \<Rightarrow> False | Some s \<Rightarrow> s \<noteq> [])"

definition orEmpty :: "string option \<Rightarrow> string" where
  \<comment> \<open>\<^verbatim>\<open>v || ''\<close>\<close>
  "orEmpty v = (case v of None \<Rightarrow> [] | Some s \<Rightarrow> s)"

definition upperChar :: "char \<Rightarrow> char" where
  "upperChar c =
     (let n = (of_char c :: nat) in if 97 \<le> n \<and> n \<le> 122 then char_of (n - 32) else c)"

definition toUpperCase :: "string \<Rightarrow> string" where
  "toUpperCase s = map upperChar s"

definition isWhiteSpace :: "char \<Rightarrow> bool" where
  \<comment> \<open>tab, line feed, vertical tab, form feed, carriage return, space\<close>
  "isWhiteSpace c = (let n = (of_char c :: nat) in (9 \<le> n \<and> n \<le> 13) \<or> n = 32)"

definition trim :: "string \<Rightarrow> string" where
  "trim s = rev (dropWhile isWhiteSpace (rev (dropWhile isWhiteSpace s)))"

definition js_split :: "char \<Rightarrow> string \<Rightarrow> string list" where
  \<comment> \<open>\<^verbatim>\<open>s.split(sep)\<close> for a one-character separator: the empty string gives one empty part\<close>
  "js_split sep s =
     foldr (\<lambda>c parts.
              if c = sep then [] # parts
              else (case parts of [] \<Rightarrow> [[c]] | w # ws \<Rightarrow> (c # w) # ws))
       s [[]]"

subsection \<open>Numbers: parseInt and NaN\<close>

text \<open>
  The numbers of this program are integers or NaN: a \<open>number\<close> is an \<open>int option\<close>
  with \<open>None\<close> for NaN. Every comparison with NaN is false.
\<close>

type_synonym number = "int option"

definition num_less :: "number \<Rightarrow> number \<Rightarrow> bool" where
  "num_less a b = (case (a, b) of (Some x, Some y) \<Rightarrow> x < y | _ \<Rightarrow> False)"

definition num_eq :: "number \<Rightarrow> number \<Rightarrow> bool" where
  \<comment> \<open>\<^verbatim>\<open>===\<close> on numbers: NaN equals nothing\<close>
  "num_eq a b = (case (a, b) of (Some x, Some y) \<Rightarrow> x = y | _ \<Rightarrow> False)"

definition num_sub :: "number \<Rightarrow> number \<Rightarrow> number" where
  "num_sub a b = (case (a, b) of (Some x, Some y) \<Rightarrow> Some (x - y) | _ \<Rightarrow> None)"

definition digitOf :: "char \<Rightarrow> nat" where
  \<comment> \<open>the value of a digit in radix up to 36; 36 for any other character\<close>
  "digitOf c =
     (let n = (of_char c :: nat) in
      if 48 \<le> n \<and> n \<le> 57 then n - 48
      else if 97 \<le> n \<and> n \<le> 122 then n - 87
      else if 65 \<le> n \<and> n \<le> 90 then n - 55
      else 36)"

definition parseInt :: "string \<Rightarrow> number" where
  \<comment> \<open>\<^verbatim>\<open>parseInt(s)\<close> without a radix: leading white space, a sign, a \<^verbatim>\<open>0x\<close> prefix,
      then the longest run of digits; NaN when that run is empty\<close>
  "parseInt s =
     (let S = dropWhile isWhiteSpace s;
          sign = (if S \<noteq> [] \<and> hd S = CHR ''-'' then - 1 else 1 :: int);
          S1 = (if S \<noteq> [] \<and> (hd S = CHR ''+'' \<or> hd S = CHR ''-'') then tl S else S);
          hex = (take 2 S1 = ''0x'' \<or> take 2 S1 = ''0X'');
          R = (if hex then 16 else 10 :: nat);
          S2 = (if hex then drop 2 S1 else S1);
          Z = takeWhile (\<lambda>c. digitOf c < R) S2
      in if Z = [] then None
         else Some (sign * int (foldl (\<lambda>a c. a * R + digitOf c) 0 Z)))"

subsection \<open>Dates\<close>

text \<open>
  A \<^verbatim>\<open>Date\<close> object holds a time value, milliseconds since the epoch in UTC, or NaN
  (an Invalid Date). The local time zone is a fixed offset \<open>tza\<close> in milliseconds
  (local time minus UTC), without daylight saving. Day numbers and calendar dates are
  converted by the usual proleptic Gregorian formulas.
\<close>

type_synonym Date = "int option"

definition msPerDay :: int where
  "msPerDay = 86400000"

definition daysFromCivil :: "int \<Rightarrow> int \<Rightarrow> int \<Rightarrow> int" where
  \<comment> \<open>the day number of year y, month m (1 to 12), day d; day 0 is 1 January 1970\<close>
  "daysFromCivil y m d =
     (let y1 = (if m \<le> 2 then y - 1 else y);
          era = y1 div 400;
          yoe = y1 - era * 400;
          mp = (m + 9) mod 12;
          doy = (153 * mp + 2) div 5 + d - 1;
          doe = yoe * 365 + yoe div 4 - yoe div 100 + doy
      in era * 146097 + doe - 719468)"

definition civilFromDays :: "int \<Rightarrow> int \<times> int \<times> int" where
  \<comment> \<open>the year, month (1 to 12) and day of the month of a day number\<close>
  "civilFromDays z =
     (let z1 = z + 719468;
          era = z1 div 146097;
          doe = z1 - era * 146097;
          yoe = (doe - doe div 1460 + doe div 36524 - doe div 146096) div 365;
          doy = doe - (365 * yoe + yoe div 4 - yoe div 100);
          mp = (5 * doy + 2) div 153;
          d = doy - (153 * mp + 2) div 5 + 1;
          m = (if mp < 10 then mp + 3 else mp - 9);
          y = yoe + era * 400
      in (if m \<le> 2 then y + 1 else y, m, d))"

definition MakeDay :: "int \<Rightarrow> int \<Rightarrow> int \<Rightarrow> int" where
  \<comment> \<open>year, month (0-based, any integer: it carries into the year), day (any integer)\<close>
  "MakeDay year month date =
     daysFromCivil (year + month div 12) (month mod 12 + 1) 1 + date - 1"

definition TimeClip :: "int \<Rightarrow> Date" where
  "TimeClip t = (if \<bar>t\<bar> > 8640000000000000 then None else Some t)"

definition newDate :: "int \<Rightarrow> number \<Rightarrow> number \<Rightarrow> number \<Rightarrow> Date" where
  \<comment> \<open>\<^verbatim>\<open>new Date(year, month, day)\<close>: local midnight; a year from 0 to 99 means 1900 + year\<close>
  "newDate tza year month date =
     (case (year, month, date) of
        (Some y, Some m, Some d) \<Rightarrow>
          let yr = (if 0 \<le> y \<and> y \<le> 99 then 1900 + y else y)
          in TimeClip (MakeDay yr m d * msPerDay - tza)
      | _ \<Rightarrow> None)"

definition getFullYear :: "int \<Rightarrow> Date \<Rightarrow> number" where
  "getFullYear tza dt = map_option (\<lambda>t. fst (civilFromDays ((t + tza) div msPerDay))) dt"

definition getMonth :: "int \<Rightarrow> Date \<Rightarrow> number" where
  "getMonth tza dt =
     map_option (\<lambda>t. fst (snd (civilFromDays ((t + tza) div msPerDay))) - 1) dt"

definition getDate :: "int \<Rightarrow> Date \<Rightarrow> number" where
  "getDate tza dt = map_option (\<lambda>t. snd (snd (civilFromDays ((t + tza) div msPerDay)))) dt"

definition isDigit :: "char \<Rightarrow> bool" where
  "isDigit c = (digitOf c < 10)"

definition decimal :: "string \<Rightarrow> int" where
  "decimal ds = int (foldl (\<lambda>a c. a * 10 + digitOf c) 0 ds)"

definition daysInMonth :: "int \<Rightarrow> int \<Rightarrow> int" where
  "daysInMonth y m = MakeDay y m 1 - MakeDay y (m - 1) 1"

definition newDateFromString :: "string \<Rightarrow> Date" where
  \<comment> \<open>\<^verbatim>\<open>new Date(s)\<close> for the value of a date input, \<^verbatim>\<open>YYYY-MM-DD\<close>: midnight UTC of that
      day. A date input yields only the empty string or a valid date of this form; any
      other string is an Invalid Date here (JavaScript engines accept further formats).\<close>
  "newDateFromString s =
     (if length s = 10 \<and> s ! 4 = CHR ''-'' \<and> s ! 7 = CHR ''-'' \<and>
         list_all isDigit (take 4 s @ take 2 (drop 5 s) @ drop 8 s)
      then
        let y = decimal (take 4 s); m = decimal (take 2 (drop 5 s)); d = decimal (drop 8 s)
        in if 1 \<le> m \<and> m \<le> 12 \<and> 1 \<le> d \<and> d \<le> daysInMonth y m
           then TimeClip (daysFromCivil y m d * msPerDay)
           else None
      else None)"

definition setHours :: "int \<Rightarrow> Date \<Rightarrow> int \<Rightarrow> int \<Rightarrow> int \<Rightarrow> Date" where
  \<comment> \<open>\<^verbatim>\<open>d.setHours(h, m, s)\<close>: the local day and the milliseconds stay, the local time of
      day is replaced\<close>
  "setHours tza dt h m s =
     (case dt of
        None \<Rightarrow> None
      | Some t \<Rightarrow>
          let local = t + tza; day = local div msPerDay; ms = local mod 1000
          in TimeClip (day * msPerDay + (h * 3600000 + m * 60000 + s * 1000 + ms) - tza))"

fun str_less :: "string \<Rightarrow> string \<Rightarrow> bool" where
  \<comment> \<open>\<^verbatim>\<open>a < b\<close> on strings: lexicographic by character code\<close>
  "str_less [] [] = False"
| "str_less [] (b # bs) = True"
| "str_less (a # as) [] = False"
| "str_less (a # as) (b # bs) =
     (if (of_char a :: nat) < of_char b then True
      else if (of_char b :: nat) < of_char a then False
      else str_less as bs)"

section \<open>Data model (src/types.ts)\<close>

datatype Status = pending | processing | completed | error

text \<open>
  \<^verbatim>\<open>Partial<PassportData>\<close>, as the recognition service returns it and as
  \<^verbatim>\<open>checkIsDuplicate\<close> reads it, is the record of the ten descriptive fields, each
  possibly undefined. \<^verbatim>\<open>PassportData\<close> extends it with the bookkeeping fields. The
  names and the passport number are declared \<^verbatim>\<open>string\<close> in \<^verbatim>\<open>PassportData\<close>, but the
  merge of an extraction result can leave them undefined, so they stay optional here.
  \<^verbatim>\<open>passengerType\<close> holds the string literals \<^verbatim>\<open>'ADULT'\<close>, \<^verbatim>\<open>'CHILD'\<close>,
  \<^verbatim>\<open>'INFANT'\<close>; an editor writes the string of a select into it.
\<close>

record PassportDetails =
  passengerType :: "string option"
  title :: "string option"
  firstName :: "string option"
  lastName :: "string option"
  passportNumber :: "string option"
  nationality :: "string option"
  gender :: "string option"
  dateOfBirth :: "string option"
  issueDate :: "string option"
  expiryDate :: "string option"

record PassportData = PassportDetails +
  id' :: string
  fileName :: string
  status :: Status
  errorMessage :: "string option"
  isDuplicate :: "bool option"

datatype ProcessingStatus = IDLE | UPLOADING | PROCESSING | COMPLETED

datatype SortOrder = asc | desc

text \<open>
  The keys of \<^verbatim>\<open>PassportData\<close> that the program passes to \<^verbatim>\<open>updatePassport\<close> and
  to \<^verbatim>\<open>handleSort\<close>: the ten columns of the table, which are the ten fields of the
  detail editor. All of them hold strings.
\<close>

datatype PassportKey =
  key_passengerType | key_title | key_firstName | key_lastName | key_passportNumber
  | key_nationality | key_gender | key_dateOfBirth | key_issueDate | key_expiryDate

definition getField :: "PassportKey \<Rightarrow> PassportData \<Rightarrow> string option" where
  \<comment> \<open>\<^verbatim>\<open>p[key]\<close>\<close>
  "getField k p =
     (case k of
        key_passengerType \<Rightarrow> passengerType p
      | key_title \<Rightarrow> title p
      | key_firstName \<Rightarrow> firstName p
      | key_lastName \<Rightarrow> lastName p
      | key_passportNumber \<Rightarrow> passportNumber p
      | key_nationality \<Rightarrow> nationality p
      | key_gender \<Rightarrow> gender p
      | key_dateOfBirth \<Rightarrow> dateOfBirth p
      | key_issueDate \<Rightarrow> issueDate p
      | key_expiryDate \<Rightarrow> expiryDate p)"

definition setField :: "PassportKey \<Rightarrow> string \<Rightarrow> PassportData \<Rightarrow> PassportData" where
  \<comment> \<open>\<^verbatim>\<open>{ ...p, [field]: value }\<close>\<close>
  "setField k v p =
     (case k of
        key_passengerType \<Rightarrow> p\<lparr>passengerType := Some v\<rparr>
      | key_title \<Rightarrow> p\<lparr>title := Some v\<rparr>
      | key_firstName \<Rightarrow> p\<lparr>firstName := Some v\<rparr>
      | key_lastName \<Rightarrow> p\<lparr>lastName := Some v\<rparr>
      | key_passportNumber \<Rightarrow> p\<lparr>passportNumber := Some v\<rparr>
      | key_nationality \<Rightarrow> p\<lparr>nationality := Some v\<rparr>
      | key_gender \<Rightarrow> p\<lparr>gender := Some v\<rparr>
      | key_dateOfBirth \<Rightarrow> p\<lparr>dateOfBirth := Some v\<rparr>
      | key_issueDate \<Rightarrow> p\<lparr>issueDate := Some v\<rparr>
      | key_expiryDate \<Rightarrow> p\<lparr>expiryDate := Some v\<rparr>)"

record SortConfig =
  key :: "PassportKey option"
  order :: SortOrder

datatype DateField = field_dateOfBirth | field_issueDate | field_expiryDate

record FilterState =
  field :: DateField
  startDate :: string
  endDate :: string

definition dateFieldValue :: "DateField \<Rightarrow> PassportData \<Rightarrow> string option" where
  \<comment> \<open>\<^verbatim>\<open>p[filters.field]\<close>\<close>
  "dateFieldValue f p =
     (case f of
        field_dateOfBirth \<Rightarrow> dateOfBirth p
      | field_issueDate \<Rightarrow> issueDate p
      | field_expiryDate \<Rightarrow> expiryDate p)"

section \<open>Derived attribute calculator (src/App.tsx, lines 55-90)\<close>

text \<open>
  \<open>tza\<close> is the local time zone offset and \<open>now\<close> the time value of
  \<^verbatim>\<open>new Date()\<close> at the call. \<open>birthDateOf\<close> is the \<^verbatim>\<open>Date\<close> built from the three
  parts of a date string (also by the filter, line 270); \<open>ageOf\<close> is the variable
  \<^verbatim>\<open>age\<close> after lines 65-69.
\<close>

record DerivedAttributes =
  title' :: string
  passengerType' :: string

definition birthDateOf :: "int \<Rightarrow> string list \<Rightarrow> Date" where
  "birthDateOf tza parts =
     newDate tza (parseInt (parts ! 2)) (num_sub (parseInt (parts ! 1)) (Some 1))
       (parseInt (parts ! 0))"

definition ageOf :: "int \<Rightarrow> int \<Rightarrow> Date \<Rightarrow> number" where
  "ageOf tza now birthDate =
     (let today = Some now;
          age = num_sub (getFullYear tza today) (getFullYear tza birthDate);
          m = num_sub (getMonth tza today) (getMonth tza birthDate)
      in if num_less m (Some 0) \<or>
            (num_eq m (Some 0) \<and> num_less (getDate tza today) (getDate tza birthDate))
         then num_sub age (Some 1)
         else age)"

definition deriveAttributes :: "int \<Rightarrow> int \<Rightarrow> string \<Rightarrow> string \<Rightarrow> DerivedAttributes" where
  "deriveAttributes tza now dob gender' =
     (if dob = [] then \<lparr>title' = [], passengerType' = ''ADULT''\<rparr>
      else
        let parts = js_split CHR ''/'' dob in
        if length parts \<noteq> 3 then \<lparr>title' = [], passengerType' = ''ADULT''\<rparr>
        else
          let birthDate = birthDateOf tza parts;
              age = ageOf tza now birthDate;
              pType =
                (if num_less age (Some 2) then ''INFANT''
                 else if num_less age (Some 12) then ''CHILD''
                 else ''ADULT'');
              isMale = (toUpperCase gender' = ''MALE'');
              t =
                (if num_less age (Some 2) then (if isMale then ''MSTR'' else ''MISS'')
                 else if isMale then ''MR''
                 else if num_less (Some 30) age then ''MRS''
                 else ''MS'')
          in \<lparr>title' = t, passengerType' = pType\<rparr>)"

section \<open>History store (src/App.tsx, lines 20-24 and 93-129)\<close>

record HistoryState =
  past :: "PassportData list list"
  present :: "PassportData list"
  future :: "PassportData list list"

definition initialHistory :: HistoryState where
  "initialHistory = \<lparr>past = [], present = [], future = []\<rparr>"

text \<open>
  \<^verbatim>\<open>nextPresent === prev.present\<close> compares array objects by identity, which a HOL list
  does not have. The argument \<^verbatim>\<open>newPassports\<close>, an array or a function of
  \<^verbatim>\<open>prev.present\<close>, is therefore a function of \<^verbatim>\<open>prev.present\<close> that says what it
  evaluates to: \<open>Same\<close>, the very array object \<^verbatim>\<open>prev.present\<close>, or \<open>Fresh xs\<close>,
  another array object with the elements \<open>xs\<close> (which may equal those of
  \<^verbatim>\<open>prev.present\<close>). Every \<^verbatim>\<open>map\<close>, \<^verbatim>\<open>filter\<close>, spread and array literal
  allocates, so all callers in the program pass \<open>Fresh\<close> results.
\<close>

datatype NextPresent = Same | Fresh "PassportData list"

definition slice_last :: "nat \<Rightarrow> 'a list \<Rightarrow> 'a list" where
  \<comment> \<open>\<^verbatim>\<open>xs.slice(-n)\<close>: the last n elements, all of them when there are fewer\<close>
  "slice_last n xs = drop (length xs - n) xs"

definition setPassportsWithHistory ::
  "(PassportData list \<Rightarrow> NextPresent) \<Rightarrow> bool \<Rightarrow> HistoryState \<Rightarrow> HistoryState" where
  "setPassportsWithHistory newPassports shouldClearFuture prev =
     (case newPassports (present prev) of
        Same \<Rightarrow> prev
      | Fresh nextPresent \<Rightarrow>
          \<lparr>past = slice_last 50 (past prev @ [present prev]),
           present = nextPresent,
           future = (if shouldClearFuture then [] else future prev)\<rparr>)"

definition undo :: "HistoryState \<Rightarrow> HistoryState" where
  "undo prev =
     (if length (past prev) = 0 then prev
      else
        let previous = past prev ! (length (past prev) - 1);
            newPast = take (length (past prev) - 1) (past prev)
        in \<lparr>past = newPast, present = previous, future = present prev # future prev\<rparr>)"

definition redo :: "HistoryState \<Rightarrow> HistoryState" where
  "redo prev =
     (if length (future prev) = 0 then prev
      else
        let next = future prev ! 0;
            newFuture = drop 1 (future prev)
        in \<lparr>past = past prev @ [present prev], present = next, future = newFuture\<rparr>)"

section \<open>Duplicate detector (src/App.tsx, lines 152-164)\<close>

definition checkIsDuplicate ::
  "'a PassportDetails_scheme \<Rightarrow> string \<Rightarrow> PassportData list \<Rightarrow> bool" where
  "checkIsDuplicate details currentId list =
     (if \<not> truthy (passportNumber details) \<and>
         (\<not> truthy (firstName details) \<or> \<not> truthy (lastName details))
      then False
      else
        list_ex
          (\<lambda>p.
             if id' p = currentId then False
             else if status p \<noteq> completed then False
             else
               let samePassport =
                     (truthy (passportNumber details) \<and> truthy (passportNumber p) \<and>
                      toUpperCase (trim (orEmpty (passportNumber details))) =
                        toUpperCase (trim (orEmpty (passportNumber p))));
                   sameName =
                     (truthy (firstName details) \<and> truthy (lastName details) \<and>
                      truthy (firstName p) \<and> truthy (lastName p) \<and>
                      toUpperCase (trim (orEmpty (firstName details))) =
                        toUpperCase (trim (orEmpty (firstName p))) \<and>
                      toUpperCase (trim (orEmpty (lastName details))) =
                        toUpperCase (trim (orEmpty (lastName p))))
               in samePassport \<or> sameName)
          list)"

section \<open>Batch ingestion (src/App.tsx, lines 166-222)\<close>

text \<open>
  A file of a batch comes with what the environment decides for it: the id that
  \<^verbatim>\<open>Math.random\<close> gives its placeholder, the outcome of
  \<^verbatim>\<open>extractPassportDetails\<close> (the nine fields of the service, or a thrown value and
  its \<^verbatim>\<open>message\<close>), and the time at which its result arrives. The loop runs with no
  other event between two files. Of the component state, \<open>AppState\<close> keeps the history
  and the counters; the view, the batch start time and the editor's selection are
  presentation state.
\<close>

datatype Extraction = Rejected "string option" | Extracted PassportDetails

record FileInput =
  name :: string
  randomId :: string
  extraction :: Extraction
  clock :: int

record AppState =
  history :: HistoryState
  status' :: ProcessingStatus
  processedCount :: nat
  totalCount :: nat

definition placeholderOf :: "FileInput \<Rightarrow> PassportData" where
  "placeholderOf f =
     \<lparr>passengerType = None, title = None, firstName = Some [], lastName = Some [],
      passportNumber = Some [], nationality = None, gender = None, dateOfBirth = None,
      issueDate = None, expiryDate = None,
      id' = randomId f, fileName = name f, status = processing, errorMessage = None,
      isDuplicate = None\<rparr>"

definition finalDetailsOf :: "int \<Rightarrow> int \<Rightarrow> PassportDetails \<Rightarrow> PassportDetails" where
  \<comment> \<open>lines 193-198\<close>
  "finalDetailsOf tza now details =
     (let derived = deriveAttributes tza now (orEmpty (dateOfBirth details)) (orEmpty (gender details))
      in details\<lparr>title := Some (if truthy (title details) then orEmpty (title details) else title' derived),
                 passengerType := Some (passengerType' derived)\<rparr>)"

definition completeFile :: "string \<Rightarrow> PassportDetails \<Rightarrow> HistoryState \<Rightarrow> HistoryState" where
  \<comment> \<open>the \<^verbatim>\<open>setHistory\<close> of lines 200-207; \<^verbatim>\<open>{ ...p, ...finalDetails }\<close> overwrites the
      ten descriptive fields, each a key of \<^verbatim>\<open>finalDetails\<close>\<close>
  "completeFile placeholderId finalDetails prev =
     (let nextPresent =
            map (\<lambda>p. if id' p = placeholderId
                      then p\<lparr>passengerType := passengerType finalDetails,
                             title := title finalDetails,
                             firstName := firstName finalDetails,
                             lastName := lastName finalDetails,
                             passportNumber := passportNumber finalDetails,
                             nationality := nationality finalDetails,
                             gender := gender finalDetails,
                             dateOfBirth := dateOfBirth finalDetails,
                             issueDate := issueDate finalDetails,
                             expiryDate := expiryDate finalDetails,
                             status := completed,
                             isDuplicate :=
                               Some (checkIsDuplicate finalDetails placeholderId (present prev))\<rparr>
                      else p)
              (present prev)
      in prev\<lparr>present := nextPresent\<rparr>)"

definition failFile :: "string \<Rightarrow> string option \<Rightarrow> HistoryState \<Rightarrow> HistoryState" where
  \<comment> \<open>the \<^verbatim>\<open>setHistory\<close> of lines 209-216\<close>
  "failFile placeholderId message prev =
     prev\<lparr>present :=
            map (\<lambda>p. if id' p = placeholderId
                      then p\<lparr>status := error, errorMessage := message\<rparr>
                      else p)
              (present prev)\<rparr>"

definition processOne ::
  "int \<Rightarrow> FileInput list \<Rightarrow> PassportData list \<Rightarrow> nat \<Rightarrow> AppState \<Rightarrow> AppState" where
  \<comment> \<open>one turn of the loop, lines 187-218\<close>
  "processOne tza fileArray placeholders i s =
     (let file = fileArray ! i;
          placeholderId = id' (placeholders ! i);
          h =
            (case extraction file of
               Extracted details \<Rightarrow>
                 completeFile placeholderId (finalDetailsOf tza (clock file) details) (history s)
             | Rejected message \<Rightarrow> failFile placeholderId message (history s))
      in s\<lparr>history := h, processedCount := i + 1\<rparr>)"

definition processFiles :: "int \<Rightarrow> FileInput list \<Rightarrow> AppState \<Rightarrow> AppState" where
  "processFiles tza files s =
     (if length files = 0 then s
      else
        let fileArray = files;
            s1 = s\<lparr>totalCount := length fileArray, processedCount := 0, status' := PROCESSING\<rparr>;
            placeholders = map placeholderOf fileArray;
            s2 = s1\<lparr>history :=
                   setPassportsWithHistory (\<lambda>prev. Fresh (placeholders @ prev)) True (history s1)\<rparr>;
            s3 = fold (processOne tza fileArray placeholders) [0..<length fileArray] s2
        in s3\<lparr>status' := IDLE\<rparr>)"

section \<open>Editing and deleting (src/App.tsx, lines 224-253 and 528-550)\<close>

definition editedRecord ::
  "int \<Rightarrow> int \<Rightarrow> PassportKey \<Rightarrow> string \<Rightarrow> PassportData \<Rightarrow> PassportData" where
  \<comment> \<open>what the callback of \<^verbatim>\<open>prev.map\<close> makes of the record with the edited id,
      lines 228-238\<close>
  "editedRecord tza now fld v p =
     (let updated = setField fld v p in
      if fld = key_dateOfBirth \<or> fld = key_gender then
        let derived =
              deriveAttributes tza now (orEmpty (dateOfBirth updated)) (orEmpty (gender updated))
        in updated\<lparr>passengerType := Some (passengerType' derived),
                   title := Some (title' derived)\<rparr>
      else updated)"

definition updatedSnapshot ::
  "int \<Rightarrow> int \<Rightarrow> string \<Rightarrow> PassportKey \<Rightarrow> string \<Rightarrow> PassportData list \<Rightarrow> PassportData list" where
  \<comment> \<open>the function of \<^verbatim>\<open>prev\<close> that \<^verbatim>\<open>updatePassport\<close> commits, lines 225-247\<close>
  "updatedSnapshot tza now i fld v prev =
     (let updatedList =
            map (\<lambda>p. if id' p \<noteq> i then p else editedRecord tza now fld v p) prev;
          target = find (\<lambda>p. id' p = i) updatedList
      in case target of
           None \<Rightarrow> updatedList
         | Some t \<Rightarrow>
             if status t = completed then
               let isDup = checkIsDuplicate t i updatedList
               in map (\<lambda>p. if id' p = i then p\<lparr>isDuplicate := Some isDup\<rparr> else p) updatedList
             else updatedList)"

definition updatePassport ::
  "int \<Rightarrow> int \<Rightarrow> string \<Rightarrow> PassportKey \<Rightarrow> string \<Rightarrow> HistoryState \<Rightarrow> HistoryState" where
  "updatePassport tza now i fld v =
     setPassportsWithHistory (\<lambda>prev. Fresh (updatedSnapshot tza now i fld v prev)) True"

definition deletePassport :: "string \<Rightarrow> HistoryState \<Rightarrow> HistoryState" where
  "deletePassport i = setPassportsWithHistory (\<lambda>prev. Fresh (filter (\<lambda>p. id' p \<noteq> i) prev)) True"

definition onClear :: "bool \<Rightarrow> HistoryState \<Rightarrow> HistoryState" where
  \<comment> \<open>line 529; the argument is the answer to the confirm dialog\<close>
  "onClear confirmed h =
     (if confirmed then setPassportsWithHistory (\<lambda>prev. Fresh []) True h else h)"

text \<open>
  The two editing entry points. The table (src/unnamed/part_000, lines 86-163) has an
  input for nine keys and upper-cases the text of five of them; it has no input for
  \<^verbatim>\<open>passengerType\<close>. The detail editor (src/unnamed/part_001, lines 60-76) passes the
  value of every field as typed.
\<close>

definition PassportTable_onChange ::
  "int \<Rightarrow> int \<Rightarrow> PassportData \<Rightarrow> PassportKey \<Rightarrow> string \<Rightarrow> HistoryState \<Rightarrow> HistoryState" where
  "PassportTable_onChange tza now item k v h =
     (if k = key_passengerType then h
      else if k \<in> {key_firstName, key_lastName, key_gender, key_passportNumber, key_nationality}
      then updatePassport tza now (id' item) k (toUpperCase v) h
      else updatePassport tza now (id' item) k v h)"

definition DetailEditor_onChange ::
  "int \<Rightarrow> int \<Rightarrow> PassportData \<Rightarrow> PassportKey \<Rightarrow> string \<Rightarrow> HistoryState \<Rightarrow> HistoryState" where
  "DetailEditor_onChange tza now editingItem k v h = updatePassport tza now (id' editingItem) k v h"

section \<open>Sort and filter engine (src/App.tsx, lines 262-292)\<close>

definition passesFilter :: "int \<Rightarrow> FilterState \<Rightarrow> PassportData \<Rightarrow> bool" where
  \<comment> \<open>the callback of \<^verbatim>\<open>result.filter\<close>, lines 265-278\<close>
  "passesFilter tza filters p =
     (let dateVal = dateFieldValue (field filters) p in
      if \<not> truthy dateVal then False
      else
        let parts = js_split CHR ''/'' (orEmpty dateVal) in
        if length parts \<noteq> 3 then False
        else
          let pDate = birthDateOf tza parts in
          if startDate filters \<noteq> [] \<and> num_less pDate (newDateFromString (startDate filters))
          then False
          else if endDate filters \<noteq> [] \<and>
                  num_less (setHours tza (newDateFromString (endDate filters)) 23 59 59) pDate
          then False
          else True)"

definition compareBy :: "PassportKey \<Rightarrow> SortOrder \<Rightarrow> PassportData \<Rightarrow> PassportData \<Rightarrow> int" where
  \<comment> \<open>the comparator of lines 281-289\<close>
  "compareBy k ord a b =
     (let strA = toUpperCase (orEmpty (getField k a));
          strB = toUpperCase (orEmpty (getField k b))
      in if str_less strA strB then (if ord = asc then - 1 else 1)
         else if str_less strB strA then (if ord = asc then 1 else - 1)
         else 0)"

fun insertSorted :: "('a \<Rightarrow> 'a \<Rightarrow> int) \<Rightarrow> 'a \<Rightarrow> 'a list \<Rightarrow> 'a list" where
  "insertSorted cmp x [] = [x]"
| "insertSorted cmp x (y # ys) =
     (if cmp x y \<le> 0 then x # y # ys else y # insertSorted cmp x ys)"

definition stableSort :: "('a \<Rightarrow> 'a \<Rightarrow> int) \<Rightarrow> 'a list \<Rightarrow> 'a list" where
  \<comment> \<open>\<^verbatim>\<open>Array.prototype.sort\<close> with a comparator: stable, equal elements keep their order\<close>
  "stableSort cmp xs = foldr (insertSorted cmp) xs []"

definition filteredAndSortedPassports ::
  "int \<Rightarrow> PassportData list \<Rightarrow> FilterState \<Rightarrow> SortConfig \<Rightarrow> PassportData list" where
  "filteredAndSortedPassports tza passports filters sortConfig =
     (let result = passports;
          result1 =
            (if startDate filters \<noteq> [] \<or> endDate filters \<noteq> []
             then filter (passesFilter tza filters) result
             else result)
      in case key sortConfig of
           Some k \<Rightarrow> stableSort (compareBy k (order sortConfig)) result1
         | None \<Rightarrow> result1)"

section \<open>The histories the program can reach\<close>

text \<open>
  Every place of the program that sets the history: the batch (its commit of the
  placeholders, then one direct update per file, which other events may interleave),
  the two editors through \<^verbatim>\<open>updatePassport\<close>, deleting, clearing, undo and redo.
\<close>

inductive reachable :: "HistoryState \<Rightarrow> bool" where
  r_init: "reachable initialHistory"
| r_placeholders:
    "reachable h \<Longrightarrow>
     reachable (setPassportsWithHistory (\<lambda>prev. Fresh (map placeholderOf files @ prev)) True h)"
| r_complete: "reachable h \<Longrightarrow> reachable (completeFile placeholderId finalDetails h)"
| r_fail: "reachable h \<Longrightarrow> reachable (failFile placeholderId message h)"
| r_update: "reachable h \<Longrightarrow> reachable (updatePassport tza now i fld v h)"
| r_delete: "reachable h \<Longrightarrow> reachable (deletePassport i h)"
| r_clear: "reachable h \<Longrightarrow> reachable (onClear confirmed h)"
| r_undo: "reachable h \<Longrightarrow> reachable (undo h)"
| r_redo: "reachable h \<Longrightarrow> reachable (redo h)"

section \<open>Notions used to state the properties\<close>

definition viaCommit :: "HistoryState \<Rightarrow> HistoryState \<Rightarrow> bool" where
  \<comment> \<open>the step from h to h' pushed the present of h onto the past, trimmed to 50, and
      cleared the future\<close>
  "viaCommit h h' = (past h' = slice_last 50 (past h @ [present h]) \<and> future h' = [])"

definition commitAll :: "PassportData list list \<Rightarrow> HistoryState \<Rightarrow> HistoryState" where
  \<comment> \<open>commit the snapshots one after the other, each a new array\<close>
  "commitAll ss h = fold (\<lambda>S. setPassportsWithHistory (\<lambda>prev. Fresh S) True) ss h"

definition sameField :: "string option \<Rightarrow> string option \<Rightarrow> bool" where
  \<comment> \<open>both present and non-empty, and equal after trimming and upper-casing\<close>
  "sameField a b =
     (truthy a \<and> truthy b \<and> toUpperCase (trim (orEmpty a)) = toUpperCase (trim (orEmpty b)))"

subsection \<open>Example data\<close>

definition exampleRecord :: "string \<Rightarrow> string \<Rightarrow> string \<Rightarrow> string \<Rightarrow> PassportData" where
  "exampleRecord i fn ln pn =
     \<lparr>passengerType = Some ''ADULT'', title = Some ''MR'', firstName = Some fn,
      lastName = Some ln, passportNumber = Some pn, nationality = Some ''INDIA'',
      gender = Some ''MALE'', dateOfBirth = None, issueDate = None, expiryDate = None,
      id' = i, fileName = ''scan.jpg'', status = completed, errorMessage = None,
      isDuplicate = Some False\<rparr>"

definition exampleHistory :: HistoryState where
  "exampleHistory =
     \<lparr>past = [[]], present = [exampleRecord ''r1'' ''ANN'' ''LEE'' ''P1''], future = []\<rparr>"

definition twoRecords :: HistoryState where
  "twoRecords =
     \<lparr>past = [], present = [exampleRecord ''a'' ''ANN'' ''LEE'' ''P1'',
                             exampleRecord ''b'' ''BOB'' ''RAY'' ''P2''], future = []\<rparr>"

definition exampleDetails :: "string \<Rightarrow> string \<Rightarrow> string \<Rightarrow> string \<Rightarrow> PassportDetails" where
  \<comment> \<open>what the recognition service returns: no passenger type, no title here\<close>
  "exampleDetails fn ln pn dob =
     \<lparr>passengerType = None, title = None, firstName = Some fn, lastName = Some ln,
      passportNumber = Some pn, nationality = Some ''INDIA'', gender = Some ''MALE'',
      dateOfBirth = Some dob, issueDate = Some ''05/06/2020'', expiryDate = Some ''04/06/2030''\<rparr>"

definition exampleFile :: "string \<Rightarrow> string \<Rightarrow> Extraction \<Rightarrow> FileInput" where
  \<comment> \<open>a file whose result arrives on 1 January 2025, 00:00 UTC\<close>
  "exampleFile n i x = \<lparr>name = n, randomId = i, extraction = x, clock = 1735689600000\<rparr>"

definition exampleBatch :: "FileInput list" where
  "exampleBatch =
     [exampleFile ''one.jpg'' ''k1'' (Extracted (exampleDetails ''ANN'' ''LEE'' ''P1'' ''01/01/1990'')),
      exampleFile ''two.jpg'' ''k2'' (Rejected (Some ''Unable to read passport.'')),
      exampleFile ''three.jpg'' ''k3'' (Extracted (exampleDetails ''BOB'' ''RAY'' ''P2'' ''01/01/2023''))]"

definition batchStarted :: HistoryState where
  \<comment> \<open>the history once \<^verbatim>\<open>processFiles\<close> has committed the placeholders of the example
      batch to the empty manifest\<close>
  "batchStarted =
     setPassportsWithHistory (\<lambda>prev. Fresh (map placeholderOf exampleBatch @ prev)) True
       initialHistory"

definition initialApp :: AppState where
  "initialApp = \<lparr>history = initialHistory, status' = IDLE, processedCount = 0, totalCount = 0\<rparr>"

definition exampleFilter :: FilterState where
  "exampleFilter = \<lparr>field = field_expiryDate, startDate = ''2025-01-01'', endDate = ''2025-12-31''\<rparr>"

definition expiring :: "string \<Rightarrow> PassportData" where
  "expiring d = (exampleRecord ''a'' ''ANN'' ''LEE'' ''P1'')\<lparr>expiryDate := Some d\<rparr>"

definition fiftyOneSnapshots :: "PassportData list list" where
  "fiftyOneSnapshots =
     map (\<lambda>n. [exampleRecord (replicate n CHR ''x'') ''ANN'' ''LEE'' ''P1'']) [0..<51]"

section \<open>Properties of the history store\<close>

lemma slice_last_snoc_last: "0 < n \<Longrightarrow> last (slice_last n (xs @ [x])) = x"
  by (simp add: slice_last_def)

lemma slice_last_snoc_nonempty: "0 < n \<Longrightarrow> slice_last n (xs @ [x]) \<noteq> []"
  by (simp add: slice_last_def)

lemma commit_fresh:
  "newPassports (present h) = Fresh S \<Longrightarrow>
   setPassportsWithHistory newPassports b h =
     \<lparr>past = slice_last 50 (past h @ [present h]), present = S,
      future = (if b then [] else future h)\<rparr>"
  by (simp add: setPassportsWithHistory_def)

lemma commit_same: "newPassports (present h) = Same \<Longrightarrow> setPassportsWithHistory newPassports b h = h"
  by (simp add: setPassportsWithHistory_def)

lemma undo_nonempty:
  "past h \<noteq> [] \<Longrightarrow>
   undo h = \<lparr>past = butlast (past h), present = last (past h), future = present h # future h\<rparr>"
  by (simp add: undo_def Let_def last_conv_nth butlast_conv_take)

lemma redo_nonempty:
  "future h \<noteq> [] \<Longrightarrow>
   redo h = \<lparr>past = past h @ [present h], present = hd (future h), future = tl (future h)\<rparr>"
  by (simp add: redo_def Let_def hd_conv_nth drop_Suc)

lemma length_slice_last: "length (slice_last n xs) = min n (length xs)"
  by (simp add: slice_last_def)

lemma commit_bound:
  "length (past h) + length (future h) \<le> 50 \<Longrightarrow>
   length (past (setPassportsWithHistory f True h)) +
   length (future (setPassportsWithHistory f True h)) \<le> 50"
  by (cases "f (present h)") (simp_all add: commit_fresh commit_same length_slice_last)

lemma undo_bound:
  "length (past h) + length (future h) \<le> 50 \<Longrightarrow>
   length (past (undo h)) + length (future (undo h)) \<le> 50"
  by (cases "past h") (simp_all add: undo_def Let_def)

lemma redo_bound:
  "length (past h) + length (future h) \<le> 50 \<Longrightarrow>
   length (past (redo h)) + length (future (redo h)) \<le> 50"
  by (cases "future h") (simp_all add: redo_def Let_def)

lemma completeFile_frame: "past (completeFile pid d h) = past h \<and> future (completeFile pid d h) = future h"
  by (simp add: completeFile_def Let_def)

lemma failFile_frame: "past (failFile pid m h) = past h \<and> future (failFile pid m h) = future h"
  by (simp add: failFile_def)

lemma reachable_bound: "reachable h \<Longrightarrow> length (past h) + length (future h) \<le> 50"
proof (induction rule: reachable.induct)
  case r_init
  show ?case by (simp add: initialHistory_def)
next
  case (r_placeholders h files)
  from r_placeholders.IH show ?case by (rule commit_bound)
next
  case (r_complete h placeholderId finalDetails)
  then show ?case by (simp add: completeFile_frame)
next
  case (r_fail h placeholderId message)
  then show ?case by (simp add: failFile_frame)
next
  case (r_update h tza now i fld v)
  from r_update.IH show ?case unfolding updatePassport_def by (rule commit_bound)
next
  case (r_delete h i)
  from r_delete.IH show ?case unfolding deletePassport_def by (rule commit_bound)
next
  case (r_clear h confirmed)
  then show ?case by (cases confirmed) (simp_all add: onClear_def commit_bound)
next
  case (r_undo h)
  from r_undo.IH show ?case by (rule undo_bound)
next
  case (r_redo h)
  from r_redo.IH show ?case by (rule redo_bound)
qed

lemma past_commit:
  "past (setPassportsWithHistory (\<lambda>prev. Fresh S) b h) = slice_last 50 (past h @ [present h])"
  by (simp add: commit_fresh)

lemma present_commit: "present (setPassportsWithHistory (\<lambda>prev. Fresh S) b h) = S"
  by (simp add: commit_fresh)

lemma slice_last_slice_last_snoc:
  "slice_last n (slice_last n xs @ [x]) = slice_last n (xs @ [x])"
proof (cases "length xs \<le> n")
  case True
  then show ?thesis by (simp add: slice_last_def)
next
  case False
  show ?thesis
  proof (cases "n = 0")
    case True
    then show ?thesis by (simp add: slice_last_def)
  next
    case n: False
    have "Suc (length xs) - (length xs - n + n) + (length xs - n) = Suc (length xs) - n"
      using False n by arith
    then show ?thesis using False n by (simp add: slice_last_def)
  qed
qed

lemma commitAll_snoc:
  "commitAll (ss @ [S]) h = setPassportsWithHistory (\<lambda>prev. Fresh S) True (commitAll ss h)"
  by (simp add: commitAll_def)

lemma commitAll_present: "present (commitAll (ss @ [S]) h) = S"
  by (simp only: commitAll_snoc present_commit)

lemma commitAll_past:
  "past (commitAll (ss @ [S]) h) = slice_last 50 (past h @ present h # ss)"
proof (induction ss arbitrary: S rule: rev_induct)
  case Nil
  show ?case by (simp add: commitAll_def commit_fresh)
next
  case (snoc x xs)
  have "past (commitAll ((xs @ [x]) @ [S]) h) =
        slice_last 50 (past (commitAll (xs @ [x]) h) @ [present (commitAll (xs @ [x]) h)])"
    by (simp only: commitAll_snoc past_commit)
  also have "\<dots> = slice_last 50 (slice_last 50 (past h @ present h # xs) @ [x])"
    by (simp only: snoc commitAll_present)
  also have "\<dots> = slice_last 50 ((past h @ present h # xs) @ [x])"
    by (rule slice_last_slice_last_snoc)
  finally show ?case by simp
qed

lemma commitAll_51:
  assumes "length ss = 51"
  shows "past (commitAll ss h) = take 50 ss"
proof -
  from assms obtain xs S where ss: "ss = xs @ [S]" and xs: "length xs = 50"
    by (cases ss rule: rev_cases) auto
  have "past (commitAll ss h) = slice_last 50 (past h @ present h # xs)"
    unfolding ss by (rule commitAll_past)
  also have "\<dots> = xs" using xs by (simp add: slice_last_def)
  finally show ?thesis using ss xs by simp
qed

lemma commit_evicts_oldest:
  "past (setPassportsWithHistory (\<lambda>prev. Fresh S) b h) =
     (if length (past h) < 50 then past h @ [present h]
      else drop (length (past h) - 49) (past h) @ [present h])"
  by (simp add: past_commit slice_last_def)


text \<open>
  Claim C1. Committing a snapshot S that is another array than the present one, then
  undoing, gives back the present of before the commit; redoing then gives S. The
  hypothesis says that the argument of the commit evaluates to such an S.
\<close>

theorem commit_undo_redo:
  assumes "newPassports (present h) = Fresh S"
  shows "present (undo (setPassportsWithHistory newPassports b h)) = present h \<and>
         present (redo (undo (setPassportsWithHistory newPassports b h))) = S"
proof -
  let ?c = "setPassportsWithHistory newPassports b h"
  have c: "?c = \<lparr>past = slice_last 50 (past h @ [present h]), present = S,
      future = (if b then [] else future h)\<rparr>"
    using assms by (rule commit_fresh)
  have ne: "past ?c \<noteq> []" using c by (simp add: slice_last_snoc_nonempty)
  have u: "undo ?c = \<lparr>past = butlast (past ?c), present = last (past ?c), future = present ?c # future ?c\<rparr>"
    using ne by (rule undo_nonempty)
  have l: "last (past ?c) = present h" using c by (simp add: slice_last_snoc_last)
  have p1: "present (undo ?c) = present h" using u l by simp
  have f: "future (undo ?c) = S # future ?c" using u c by simp
  have "present (redo (undo ?c)) = S"
    using f by (simp add: redo_nonempty)
  with p1 show ?thesis by simp
qed

theorem commit_undo_redo_witness:
  "(\<lambda>prev. Fresh (filter (\<lambda>p. id' p \<noteq> ''r1'') prev)) (present exampleHistory) = Fresh [] \<and>
   present (undo (deletePassport ''r1'' exampleHistory)) =
     [exampleRecord ''r1'' ''ANN'' ''LEE'' ''P1''] \<and>
   present (redo (undo (deletePassport ''r1'' exampleHistory))) = []"
  using commit_undo_redo
    [of "\<lambda>prev. Fresh (filter (\<lambda>p. id' p \<noteq> ''r1'') prev)" exampleHistory "[]" True]
  by (simp add: deletePassport_def exampleHistory_def exampleRecord_def)

text \<open>
  Claim C2, as stated: every operation that changes the manifest, the per-file
  completion and error updates of a batch included, pushes the prior present onto the
  past and clears the future. The two per-file updates do not: they replace the present
  and keep past and future as they are. Here the example batch has just committed its
  placeholders; neither the completion of its first file nor the failure of its second
  pushes the placeholders onto the past.
\<close>

theorem per_file_update_bypasses_commit:
  "\<not> viaCommit batchStarted
       (completeFile ''k1''
          (finalDetailsOf 0 1735689600000 (exampleDetails ''ANN'' ''LEE'' ''P1'' ''01/01/1990''))
          batchStarted) \<and>
   \<not> viaCommit batchStarted (failFile ''k2'' (Some ''Unable to read passport.'') batchStarted)"
proof -
  have p: "past batchStarted = [[]]"
    by (simp add: batchStarted_def setPassportsWithHistory_def initialHistory_def slice_last_def)
  have n: "present batchStarted \<noteq> []"
    by (simp add: batchStarted_def setPassportsWithHistory_def exampleBatch_def)
  have "slice_last 50 (past batchStarted @ [present batchStarted]) \<noteq> past batchStarted"
    by (simp add: p slice_last_def)
  then show ?thesis
    by (simp add: viaCommit_def completeFile_frame failFile_frame)
qed

text \<open>
  Claim C2, amended. A field edit, a delete, a confirmed clear and the insertion of a
  batch's placeholders go through the commit path: the prior present is pushed onto the
  past, trimmed to 50 entries, and the future is cleared. The per-file completion and
  error updates of a batch replace the present only: past and future are unchanged.
\<close>

theorem commit_path_and_direct_updates:
  "viaCommit h (updatePassport tza now i fld v h) \<and>
   viaCommit h (deletePassport i h) \<and>
   viaCommit h (onClear True h) \<and>
   viaCommit h (setPassportsWithHistory (\<lambda>prev. Fresh (map placeholderOf files @ prev)) True h) \<and>
   past (completeFile placeholderId finalDetails h) = past h \<and>
   future (completeFile placeholderId finalDetails h) = future h \<and>
   past (failFile placeholderId message h) = past h \<and>
   future (failFile placeholderId message h) = future h"
  by (simp add: viaCommit_def updatePassport_def deletePassport_def onClear_def commit_fresh
      completeFile_frame failFile_frame)

text \<open>
  Claim C3. In every history the program reaches the past holds at most 50 snapshots; a
  commit onto a full past drops its oldest entry, the first, and appends the prior
  present; and 51 commits in a row leave exactly the first 50 of the committed snapshots
  in the past, all older entries evicted.
\<close>

theorem past_bounded_oldest_evicted:
  assumes "reachable h"
  shows "length (past h) \<le> 50 \<and>
         past (setPassportsWithHistory (\<lambda>prev. Fresh S) True h) =
           (if length (past h) < 50 then past h @ [present h] else tl (past h) @ [present h]) \<and>
         (length ss = 51 \<longrightarrow>
            length (past (commitAll ss h)) = 50 \<and> past (commitAll ss h) = take 50 ss)"
proof -
  have b: "length (past h) \<le> 50"
    using reachable_bound [OF assms] by simp
  have e: "past (setPassportsWithHistory (\<lambda>prev. Fresh S) True h) =
           (if length (past h) < 50 then past h @ [present h] else tl (past h) @ [present h])"
  proof (cases "length (past h) < 50")
    case True
    then show ?thesis by (simp add: commit_evicts_oldest)
  next
    case False
    with b have "length (past h) = 50" by simp
    then show ?thesis by (simp add: commit_evicts_oldest drop_Suc)
  qed
  have c: "length ss = 51 \<longrightarrow>
            length (past (commitAll ss h)) = 50 \<and> past (commitAll ss h) = take 50 ss"
    by (simp add: commitAll_51)
  from b e c show ?thesis by blast
qed

theorem past_bounded_oldest_evicted_witness:
  "reachable initialHistory \<and> length (past initialHistory) \<le> 50 \<and>
   length fiftyOneSnapshots = 51 \<and> distinct fiftyOneSnapshots \<and>
   length (past (commitAll fiftyOneSnapshots initialHistory)) = 50 \<and>
   past (commitAll fiftyOneSnapshots initialHistory) = take 50 fiftyOneSnapshots"
proof -
  have l: "length fiftyOneSnapshots = 51"
    by (simp add: fiftyOneSnapshots_def)
  have d: "distinct fiftyOneSnapshots"
    by (simp add: fiftyOneSnapshots_def distinct_map inj_on_def exampleRecord_def)
  from past_bounded_oldest_evicted [OF r_init, of "[]" fiftyOneSnapshots] l d
  show ?thesis by (simp add: r_init)
qed

section \<open>Properties of the duplicate detector\<close>

lemma sameField_sym: "sameField a b = sameField b a"
  by (auto simp: sameField_def)

lemma checkIsDuplicate_iff:
  "checkIsDuplicate d i xs \<longleftrightarrow>
     (\<exists>p \<in> set xs. id' p \<noteq> i \<and> status p = completed \<and>
        (sameField (passportNumber d) (passportNumber p) \<or>
         (sameField (firstName d) (firstName p) \<and> sameField (lastName d) (lastName p))))"
  unfolding checkIsDuplicate_def list_ex_iff sameField_def Let_def
  by (cases "truthy (passportNumber d)"; cases "truthy (firstName d)"; cases "truthy (lastName d)")
    (simp_all, blast+)

text \<open>
  Claim C7. Duplicate detection is symmetric: for two completed records A and B of one
  snapshot, if the rule with candidate A, excluding A's id, flags B, then the rule with
  candidate B, excluding B's id, flags A; so both are flagged in the snapshot.
\<close>

theorem duplicate_symmetric:
  assumes "A \<in> set list" and "B \<in> set list"
      and "status A = completed" and "status B = completed"
      and "checkIsDuplicate A (id' A) [B]"
  shows "checkIsDuplicate B (id' B) [A] \<and> checkIsDuplicate B (id' B) list \<and>
         checkIsDuplicate A (id' A) list"
proof -
  from assms(5) have ids: "id' B \<noteq> id' A"
    and m: "sameField (passportNumber A) (passportNumber B) \<or>
        (sameField (firstName A) (firstName B) \<and> sameField (lastName A) (lastName B))"
    by (simp_all add: checkIsDuplicate_iff)
  from m have m': "sameField (passportNumber B) (passportNumber A) \<or>
        (sameField (firstName B) (firstName A) \<and> sameField (lastName B) (lastName A))"
    by (simp only: sameField_sym [of "passportNumber B"] sameField_sym [of "firstName B"]
        sameField_sym [of "lastName B"])
  have BA: "checkIsDuplicate B (id' B) [A]"
    using ids m' assms(3) by (simp add: checkIsDuplicate_iff) 
  have Bl: "checkIsDuplicate B (id' B) list"
    unfolding checkIsDuplicate_iff using ids m' assms(1,3) by (intro bexI [of _ A]) auto
  have Al: "checkIsDuplicate A (id' A) list"
    unfolding checkIsDuplicate_iff using ids m assms(2,4) by (intro bexI [of _ B]) auto
  from BA Bl Al show ?thesis by simp
qed

theorem duplicate_symmetric_witness:
  "exampleRecord ''a'' ''ANN'' ''LEE'' ''P1'' \<in> set (present twoRecords @ [exampleRecord ''c'' ''Ann '' '' lee'' ''P3'']) \<and>
   exampleRecord ''c'' ''Ann '' '' lee'' ''P3'' \<in> set (present twoRecords @ [exampleRecord ''c'' ''Ann '' '' lee'' ''P3'']) \<and>
   status (exampleRecord ''a'' ''ANN'' ''LEE'' ''P1'') = completed \<and>
   status (exampleRecord ''c'' ''Ann '' '' lee'' ''P3'') = completed \<and>
   checkIsDuplicate (exampleRecord ''a'' ''ANN'' ''LEE'' ''P1'') ''a'' [exampleRecord ''c'' ''Ann '' '' lee'' ''P3''] \<and>
   checkIsDuplicate (exampleRecord ''c'' ''Ann '' '' lee'' ''P3'') ''c'' [exampleRecord ''a'' ''ANN'' ''LEE'' ''P1''] \<and>
   checkIsDuplicate (exampleRecord ''c'' ''Ann '' '' lee'' ''P3'') ''c'' (present twoRecords @ [exampleRecord ''c'' ''Ann '' '' lee'' ''P3''])"
proof -
  let ?A = "exampleRecord ''a'' ''ANN'' ''LEE'' ''P1''"
  let ?C = "exampleRecord ''c'' ''Ann '' '' lee'' ''P3''"
  let ?l = "present twoRecords @ [?C]"
  have 1: "?A \<in> set ?l" by (simp add: twoRecords_def)
  have 2: "?C \<in> set ?l" by simp
  have 3: "status ?A = completed" by (simp add: exampleRecord_def)
  have 4: "status ?C = completed" by (simp add: exampleRecord_def)
  have 5: "checkIsDuplicate ?A (id' ?A) [?C]" by code_simp
  have ia: "id' ?A = ''a''" by (simp add: exampleRecord_def)
  have ic: "id' ?C = ''c''" by (simp add: exampleRecord_def)
  from duplicate_symmetric [OF 1 2 3 4 5] 1 2 3 4 5 show ?thesis
    by (simp only: ia ic simp_thms)
qed

section \<open>Properties of deleting\<close>

lemma count_list_filter:
  "P x \<Longrightarrow> count_list (filter P xs) x = count_list xs x"
  by (induction xs) auto

lemma present_deletePassport:
  "present (deletePassport i h) = filter (\<lambda>p. id' p \<noteq> i) (present h)"
  by (simp add: deletePassport_def setPassportsWithHistory_def)

text \<open>
  Claim C10. Deleting a passenger removes exactly the records with the given id: the
  records of the new snapshot are those of the old one with another id, each as often as
  before and unchanged, and in their old relative order (the new snapshot is a
  subsequence of the old one).
\<close>

theorem delete_removes_exactly:
  "(\<forall>p. p \<in> set (present (deletePassport i h)) \<longleftrightarrow> p \<in> set (present h) \<and> id' p \<noteq> i) \<and>
   subseq (present (deletePassport i h)) (present h) \<and>
   (\<forall>p. id' p \<noteq> i \<longrightarrow>
      count_list (present (deletePassport i h)) p = count_list (present h) p)"
  by (simp add: present_deletePassport count_list_filter)

theorem delete_removes_exactly_witness:
  "exampleRecord ''b'' ''BOB'' ''RAY'' ''P2'' \<in> set (present (deletePassport ''a'' twoRecords)) \<and>
   exampleRecord ''a'' ''ANN'' ''LEE'' ''P1'' \<notin> set (present (deletePassport ''a'' twoRecords)) \<and>
   subseq (present (deletePassport ''a'' twoRecords)) (present twoRecords) \<and>
   id' (exampleRecord ''b'' ''BOB'' ''RAY'' ''P2'') \<noteq> ''a'' \<and>
   count_list (present (deletePassport ''a'' twoRecords)) (exampleRecord ''b'' ''BOB'' ''RAY'' ''P2'') =
     count_list (present twoRecords) (exampleRecord ''b'' ''BOB'' ''RAY'' ''P2'')"
  using delete_removes_exactly [of "''a''" twoRecords]
  by (simp add: twoRecords_def exampleRecord_def)

section \<open>Properties of editing\<close>

lemma present_updatePassport:
  "present (updatePassport tza now i fld v h) = updatedSnapshot tza now i fld v (present h)"
  by (simp add: updatePassport_def setPassportsWithHistory_def)

lemma editedRecord_id: "id' (editedRecord tza now fld v p) = id' p"
  by (cases fld) (simp_all add: editedRecord_def setField_def Let_def)

lemma editedRecord_status: "status (editedRecord tza now fld v p) = status p"
  by (cases fld) (simp_all add: editedRecord_def setField_def Let_def)

lemma editedRecord_isDuplicate: "isDuplicate (editedRecord tza now fld v p) = isDuplicate p"
  by (cases fld) (simp_all add: editedRecord_def setField_def Let_def)

text \<open>The rule reads three fields of the candidate and the records with another id.\<close>

lemma checkIsDuplicate_cong:
  assumes "passportNumber d = passportNumber d'" and "firstName d = firstName d'"
      and "lastName d = lastName d'"
      and "{p \<in> set xs. id' p \<noteq> i} = {p \<in> set ys. id' p \<noteq> i}"
  shows "checkIsDuplicate d i xs = checkIsDuplicate d' i ys"
proof -
  let ?M = "\<lambda>e p. status p = completed \<and>
        (sameField (passportNumber e) (passportNumber p) \<or>
         (sameField (firstName e) (firstName p) \<and> sameField (lastName e) (lastName p)))"
  have "checkIsDuplicate d i xs \<longleftrightarrow> (\<exists>p \<in> {p \<in> set xs. id' p \<noteq> i}. ?M d p)"
    unfolding checkIsDuplicate_iff by blast
  also have "\<dots> \<longleftrightarrow> (\<exists>p \<in> {p \<in> set ys. id' p \<noteq> i}. ?M d' p)"
    by (simp only: assms)
  also have "\<dots> \<longleftrightarrow> checkIsDuplicate d' i ys"
    unfolding checkIsDuplicate_iff by blast
  finally show ?thesis .
qed

lemma flagged_others:
  "{p \<in> set (map (\<lambda>p. if id' p = i then p\<lparr>isDuplicate := b\<rparr> else p) xs). id' p \<noteq> i} =
   {p \<in> set xs. id' p \<noteq> i}"
  by (auto simp: image_iff)

lemma find_distinct_id:
  assumes "distinct (map id' xs)" and "p \<in> set xs" and "id' p = i"
  shows "find (\<lambda>q. id' q = i) xs = Some p"
  using assms
proof (induction xs)
  case Nil
  then show ?case by simp
next
  case (Cons x xs)
  show ?case
  proof (cases "id' x = i")
    case True
    with Cons.prems have "p = x" by (auto simp: image_iff)
    with True show ?thesis by simp
  next
    case False
    with Cons.prems have "p \<in> set xs" by auto
    with Cons False show ?thesis by simp
  qed
qed

lemma distinct_id_unique:
  "distinct (map id' xs) \<Longrightarrow> p \<in> set xs \<Longrightarrow> q \<in> set xs \<Longrightarrow> id' p = id' q \<Longrightarrow> p = q"
  by (metis distinct_map inj_on_def)


lemma updatedSnapshot_cases:
  fixes tza now i fld v prev
  defines "ul \<equiv> map (\<lambda>p. if id' p \<noteq> i then p else editedRecord tza now fld v p) prev"
  obtains
    (none) "find (\<lambda>p. id' p = i) ul = None" and "updatedSnapshot tza now i fld v prev = ul"
  | (flag) t where "find (\<lambda>p. id' p = i) ul = Some t" and "status t = completed"
      and "updatedSnapshot tza now i fld v prev =
           map (\<lambda>p. if id' p = i then p\<lparr>isDuplicate := Some (checkIsDuplicate t i ul)\<rparr> else p) ul"
  | (keep) t where "find (\<lambda>p. id' p = i) ul = Some t" and "status t \<noteq> completed"
      and "updatedSnapshot tza now i fld v prev = ul"
proof (cases "find (\<lambda>p. id' p = i) ul")
  case None
  then have "updatedSnapshot tza now i fld v prev = ul"
    by (simp add: updatedSnapshot_def ul_def)
  with None show ?thesis by (rule none)
next
  case (Some t)
  show ?thesis
  proof (cases "status t = completed")
    case True
    with Some have "updatedSnapshot tza now i fld v prev =
           map (\<lambda>p. if id' p = i then p\<lparr>isDuplicate := Some (checkIsDuplicate t i ul)\<rparr> else p) ul"
      by (simp add: updatedSnapshot_def ul_def)
    with Some True show ?thesis by (rule flag)
  next
    case False
    with Some have "updatedSnapshot tza now i fld v prev = ul"
      by (simp add: updatedSnapshot_def ul_def)
    with Some False show ?thesis by (rule keep)
  qed
qed

lemma length_updatedSnapshot: "length (updatedSnapshot tza now i fld v prev) = length prev"
  by (cases rule: updatedSnapshot_cases
      [where tza = tza and now = now and i = i and fld = fld and v = v and prev = prev]) simp_all

lemma updatedSnapshot_sibling:
  assumes "k < length prev" and "id' (prev ! k) \<noteq> i"
  shows "updatedSnapshot tza now i fld v prev ! k = prev ! k"
  using assms by (cases rule: updatedSnapshot_cases
      [where tza = tza and now = now and i = i and fld = fld and v = v and prev = prev]) simp_all

lemma find_SomeD: "find P xs = Some t \<Longrightarrow> t \<in> set xs \<and> P t"
  by (auto simp: find_Some_iff)

lemma find_NoneD: "find P xs = None \<Longrightarrow> q \<in> set xs \<Longrightarrow> \<not> P q"
  by (auto simp: find_None_iff)

lemma updatedSnapshot_ids:
  "map id' (map (\<lambda>p. if id' p \<noteq> i then p else editedRecord tza now fld v p) prev) = map id' prev"
  by (simp add: editedRecord_id)

lemma updatedSnapshot_flag:
  assumes d: "distinct (map id' prev)"
      and p: "p \<in> set (updatedSnapshot tza now i fld v prev)"
      and i: "id' p = i" and c: "status p = completed"
  shows "isDuplicate p = Some (checkIsDuplicate p i (updatedSnapshot tza now i fld v prev))"
proof -
  define ul where "ul = map (\<lambda>p. if id' p \<noteq> i then p else editedRecord tza now fld v p) prev"
  have dul: "distinct (map id' ul)"
    using d unfolding ul_def by (simp only: updatedSnapshot_ids)
  show ?thesis
  proof (cases rule: updatedSnapshot_cases
      [where tza = tza and now = now and i = i and fld = fld and v = v and prev = prev])
    case none
    from none(2) p have "p \<in> set ul" by (simp add: ul_def)
    with none(1) have "id' p \<noteq> i" unfolding ul_def [symmetric] by (rule find_NoneD)
    with i show ?thesis by simp
  next
    case (flag t)
    from flag(1) have t: "t \<in> set ul" "id' t = i"
      unfolding ul_def [symmetric] by (auto dest: find_SomeD)
    from flag(3) have res: "updatedSnapshot tza now i fld v prev =
        map (\<lambda>p. if id' p = i then p\<lparr>isDuplicate := Some (checkIsDuplicate t i ul)\<rparr> else p) ul"
      by (simp add: ul_def)
    from p res obtain q where q: "q \<in> set ul"
      and pq: "p = (if id' q = i then q\<lparr>isDuplicate := Some (checkIsDuplicate t i ul)\<rparr> else q)"
      by auto
    from pq i have qi: "id' q = i" by (cases "id' q = i") simp_all
    from dul q t(1) have "q = t" by (rule distinct_id_unique) (simp add: qi t(2))
    with pq qi have pt: "p = t\<lparr>isDuplicate := Some (checkIsDuplicate t i ul)\<rparr>" by simp
    have "checkIsDuplicate p i (updatedSnapshot tza now i fld v prev) = checkIsDuplicate t i ul"
      unfolding res
    proof (rule checkIsDuplicate_cong)
      show "passportNumber p = passportNumber t" by (simp add: pt)
      show "firstName p = firstName t" by (simp add: pt)
      show "lastName p = lastName t" by (simp add: pt)
    qed (rule flagged_others)
    with pt show ?thesis by simp
  next
    case (keep t)
    from keep(1) have t: "t \<in> set ul" "id' t = i"
      unfolding ul_def [symmetric] by (auto dest: find_SomeD)
    from p keep(3) have "p \<in> set ul" by (simp add: ul_def)
    from dul this t(1) have "p = t" by (rule distinct_id_unique) (simp add: i t(2))
    with c keep(2) show ?thesis by simp
  qed
qed

lemma updatedSnapshot_not_completed:
  assumes d: "distinct (map id' prev)"
      and k: "k < length prev" and i: "id' (prev ! k) = i" and c: "status (prev ! k) \<noteq> completed"
  shows "isDuplicate (updatedSnapshot tza now i fld v prev ! k) = isDuplicate (prev ! k)"
proof -
  define ul where "ul = map (\<lambda>p. if id' p \<noteq> i then p else editedRecord tza now fld v p) prev"
  have dul: "distinct (map id' ul)"
    using d unfolding ul_def by (simp only: updatedSnapshot_ids)
  have ulk: "ul ! k = editedRecord tza now fld v (prev ! k)"
    using k i by (simp add: ul_def)
  have mem: "ul ! k \<in> set ul" using k by (intro nth_mem) (simp add: ul_def)
  show ?thesis
  proof (cases rule: updatedSnapshot_cases
      [where tza = tza and now = now and i = i and fld = fld and v = v and prev = prev])
    case none
    from none(2) have "updatedSnapshot tza now i fld v prev = ul" by (simp add: ul_def)
    with ulk show ?thesis by (simp add: editedRecord_isDuplicate)
  next
    case (flag t)
    from flag(1) have t: "t \<in> set ul" "id' t = i"
      unfolding ul_def [symmetric] by (auto dest: find_SomeD)
    have "id' (ul ! k) = id' t" using ulk i t by (simp add: editedRecord_id)
    with dul mem t(1) have "ul ! k = t" by (rule distinct_id_unique)
    with ulk have "status t = status (prev ! k)" by (simp add: editedRecord_status)
    with c flag(2) show ?thesis by simp
  next
    case (keep t)
    from keep(3) have "updatedSnapshot tza now i fld v prev = ul" by (simp add: ul_def)
    with ulk show ?thesis by (simp add: editedRecord_isDuplicate)
  qed
qed

text \<open>
  Claim C4, as stated: after a field edit the flag of every record of the new snapshot,
  the siblings included, is the duplicate rule evaluated against the new snapshot. Here
  the passport number of record b is edited to that of record a: b is flagged, but a
  keeps its old flag although the rule now holds for it.
\<close>

theorem siblings_flags_stale:
  "\<not> (\<forall>p \<in> set (present (updatePassport 0 0 ''b'' key_passportNumber ''P1'' twoRecords)).
        (isDuplicate p = Some True) =
          checkIsDuplicate p (id' p) (present (updatePassport 0 0 ''b'' key_passportNumber ''P1'' twoRecords)))"
  by code_simp

text \<open>
  Claim C4, amended. In a snapshot with distinct ids, after a field edit the flag of the
  edited record, when its status is completed, is the duplicate rule evaluated for it
  against the new snapshot; every sibling record is left as it was, flag included; and
  the flag of an edited record that is not completed is left as it was.
\<close>

theorem edit_recomputes_edited_only:
  assumes "distinct (map id' (present h))"
  shows "length (present (updatePassport tza now i fld v h)) = length (present h) \<and>
         (\<forall>p \<in> set (present (updatePassport tza now i fld v h)).
            id' p = i \<and> status p = completed \<longrightarrow>
            isDuplicate p =
              Some (checkIsDuplicate p i (present (updatePassport tza now i fld v h)))) \<and>
         (\<forall>k < length (present h).
            id' (present h ! k) \<noteq> i \<longrightarrow>
            present (updatePassport tza now i fld v h) ! k = present h ! k) \<and>
         (\<forall>k < length (present h).
            id' (present h ! k) = i \<and> status (present h ! k) \<noteq> completed \<longrightarrow>
            isDuplicate (present (updatePassport tza now i fld v h) ! k) =
              isDuplicate (present h ! k))"
  using assms
  by (simp add: present_updatePassport length_updatedSnapshot updatedSnapshot_sibling
      updatedSnapshot_flag updatedSnapshot_not_completed)

theorem edit_recomputes_edited_only_witness:
  "distinct (map id' (present twoRecords)) \<and>
   length (present (updatePassport 0 0 ''b'' key_passportNumber ''P1'' twoRecords)) = 2 \<and>
   present (updatePassport 0 0 ''b'' key_passportNumber ''P1'' twoRecords) ! 0 = present twoRecords ! 0 \<and>
   isDuplicate (present (updatePassport 0 0 ''b'' key_passportNumber ''P1'' twoRecords) ! 1) = Some True \<and>
   checkIsDuplicate (present (updatePassport 0 0 ''b'' key_passportNumber ''P1'' twoRecords) ! 1) ''b''
     (present (updatePassport 0 0 ''b'' key_passportNumber ''P1'' twoRecords))"
proof -
  have d: "distinct (map id' (present twoRecords))"
    by (simp add: twoRecords_def exampleRecord_def)
  have e: "present (updatePassport 0 0 ''b'' key_passportNumber ''P1'' twoRecords) =
           [exampleRecord ''a'' ''ANN'' ''LEE'' ''P1'',
            (exampleRecord ''b'' ''BOB'' ''RAY'' ''P1'')\<lparr>isDuplicate := Some True\<rparr>]"
    by code_simp
  have c: "checkIsDuplicate ((exampleRecord ''b'' ''BOB'' ''RAY'' ''P1'')\<lparr>isDuplicate := Some True\<rparr>) ''b''
     [exampleRecord ''a'' ''ANN'' ''LEE'' ''P1'',
            (exampleRecord ''b'' ''BOB'' ''RAY'' ''P1'')\<lparr>isDuplicate := Some True\<rparr>]"
    by code_simp
  from edit_recomputes_edited_only [OF d, of 0 0 "''b''" key_passportNumber "''P1''"] d e c
  show ?thesis by (simp add: twoRecords_def)
qed

section \<open>Properties of batch ingestion\<close>

lemma upt_3: "[0..<3] = [0, 1, 2]"
  by (simp add: upt_rec numeral_3_eq_3)

text \<open>
  Claim C5. A batch of three files with distinct placeholder ids, of which only the
  second fails: the loop goes on after the failure. The new snapshot has three records
  more than the old one (three in all from an empty manifest), in the order of the
  files; the first and the third are completed, the second has status error and the
  message of the failure; the processed count ends at 3 and the pipeline is idle again.
\<close>

theorem batch_continues_after_failure:
  assumes "extraction f1 = Extracted d1" and "extraction f2 = Rejected m"
      and "extraction f3 = Extracted d3"
      and "distinct [randomId f1, randomId f2, randomId f3]"
  shows "length (present (history (processFiles tza [f1, f2, f3] s))) =
           3 + length (present (history s)) \<and>
         status (present (history (processFiles tza [f1, f2, f3] s)) ! 0) = completed \<and>
         fileName (present (history (processFiles tza [f1, f2, f3] s)) ! 0) = name f1 \<and>
         status (present (history (processFiles tza [f1, f2, f3] s)) ! 1) = error \<and>
         errorMessage (present (history (processFiles tza [f1, f2, f3] s)) ! 1) = m \<and>
         fileName (present (history (processFiles tza [f1, f2, f3] s)) ! 1) = name f2 \<and>
         status (present (history (processFiles tza [f1, f2, f3] s)) ! 2) = completed \<and>
         fileName (present (history (processFiles tza [f1, f2, f3] s)) ! 2) = name f3 \<and>
         processedCount (processFiles tza [f1, f2, f3] s) = 3 \<and>
         totalCount (processFiles tza [f1, f2, f3] s) = 3 \<and>
         status' (processFiles tza [f1, f2, f3] s) = IDLE"
proof -
  from assms(4) have ne:
    "randomId f1 \<noteq> randomId f2" "randomId f1 \<noteq> randomId f3" "randomId f2 \<noteq> randomId f3"
    "randomId f2 \<noteq> randomId f1" "randomId f3 \<noteq> randomId f1" "randomId f3 \<noteq> randomId f2"
    by auto
  show ?thesis
    using assms(1-3) ne
    by (simp add: processFiles_def upt_3 processOne_def completeFile_def failFile_def Let_def
        setPassportsWithHistory_def placeholderOf_def)
qed

theorem batch_continues_after_failure_witness:
  "distinct (map randomId exampleBatch) \<and>
   map extraction exampleBatch =
     [Extracted (exampleDetails ''ANN'' ''LEE'' ''P1'' ''01/01/1990''),
      Rejected (Some ''Unable to read passport.''),
      Extracted (exampleDetails ''BOB'' ''RAY'' ''P2'' ''01/01/2023'')] \<and>
   map (\<lambda>p. (fileName p, status p, errorMessage p, passengerType p))
     (present (history (processFiles 0 exampleBatch initialApp))) =
     [(''one.jpg'', completed, None, Some ''ADULT''),
      (''two.jpg'', error, Some ''Unable to read passport.'', None),
      (''three.jpg'', completed, None, Some ''CHILD'')] \<and>
   processedCount (processFiles 0 exampleBatch initialApp) = 3"
proof -
  let ?f1 = "exampleFile ''one.jpg'' ''k1'' (Extracted (exampleDetails ''ANN'' ''LEE'' ''P1'' ''01/01/1990''))"
  let ?f2 = "exampleFile ''two.jpg'' ''k2'' (Rejected (Some ''Unable to read passport.''))"
  let ?f3 = "exampleFile ''three.jpg'' ''k3'' (Extracted (exampleDetails ''BOB'' ''RAY'' ''P2'' ''01/01/2023''))"
  have b: "exampleBatch = [?f1, ?f2, ?f3]" by (simp add: exampleBatch_def)
  have 1: "extraction ?f1 = Extracted (exampleDetails ''ANN'' ''LEE'' ''P1'' ''01/01/1990'')"
    by (simp add: exampleFile_def)
  have 2: "extraction ?f2 = Rejected (Some ''Unable to read passport.'')"
    by (simp add: exampleFile_def)
  have 3: "extraction ?f3 = Extracted (exampleDetails ''BOB'' ''RAY'' ''P2'' ''01/01/2023'')"
    by (simp add: exampleFile_def)
  have 4: "distinct [randomId ?f1, randomId ?f2, randomId ?f3]"
    by (simp add: exampleFile_def)
  have ev: "map (\<lambda>p. (fileName p, status p, errorMessage p, passengerType p))
     (present (history (processFiles 0 exampleBatch initialApp))) =
     [(''one.jpg'', completed, None, Some ''ADULT''),
      (''two.jpg'', error, Some ''Unable to read passport.'', None),
      (''three.jpg'', completed, None, Some ''CHILD'')]"
    by code_simp
  from batch_continues_after_failure [OF 1 2 3 4, of 0 initialApp] 1 2 3 4 ev
  show ?thesis by (simp add: b)
qed

section \<open>Properties of the derived attribute calculator\<close>

lemma js_split_empty: "js_split sep [] = [[]]"
  by (simp add: js_split_def)

lemma deriveAttributes_unparseable:
  "length (js_split CHR ''/'' dob) \<noteq> 3 \<Longrightarrow>
   deriveAttributes tza now dob g = \<lparr>title' = [], passengerType' = ''ADULT''\<rparr>"
  by (simp add: deriveAttributes_def Let_def)

lemma deriveAttributes_type:
  assumes "length (js_split CHR ''/'' dob) = 3"
  shows "passengerType' (deriveAttributes tza now dob g) =
     (let age = ageOf tza now (birthDateOf tza (js_split CHR ''/'' dob)) in
      if num_less age (Some 2) then ''INFANT''
      else if num_less age (Some 12) then ''CHILD'' else ''ADULT'')"
proof -
  from assms have "dob \<noteq> []" by (auto simp: js_split_empty)
  with assms show ?thesis by (simp add: deriveAttributes_def Let_def)
qed

lemma ageOf_calendar:
  "ageOf tza now (Some t) =
     (case (civilFromDays ((now + tza) div msPerDay), civilFromDays ((t + tza) div msPerDay)) of
        ((ty, tm, td), (by, bm, bd)) \<Rightarrow>
          Some (ty - by - (if tm < bm \<or> (tm = bm \<and> td < bd) then 1 else 0)))"
  by (simp add: ageOf_def getFullYear_def getMonth_def getDate_def num_sub_def num_less_def
      num_eq_def Let_def split: prod.splits)

lemma deriveAttributes_example:
  "deriveAttributes 0 1735689600000 ''01/01/2023'' ''MALE'' =
     \<lparr>title' = ''MR'', passengerType' = ''CHILD''\<rparr>"
  by code_simp

text \<open>
  Claim C6. A date of birth that does not split into exactly three parts at the slashes
  gives an empty title and the type ADULT. Otherwise, with the age in whole years that
  the calculator computes for the current date (\<open>ageOf\<close>, the calendar rule of
  \<open>ageOf_calendar\<close>), the type is INFANT below 2, CHILD from 2 to 11, so also at
  exactly 2, and ADULT from 12 on. When the three parts give no date the age is NaN and
  the type is ADULT.
\<close>

theorem derive_brackets:
  "(length (js_split CHR ''/'' dob) \<noteq> 3 \<longrightarrow>
      deriveAttributes tza now dob g = \<lparr>title' = [], passengerType' = ''ADULT''\<rparr>) \<and>
   (length (js_split CHR ''/'' dob) = 3 \<longrightarrow>
      (\<forall>a. ageOf tza now (birthDateOf tza (js_split CHR ''/'' dob)) = Some a \<longrightarrow>
         passengerType' (deriveAttributes tza now dob g) =
           (if a < 2 then ''INFANT'' else if a < 12 then ''CHILD'' else ''ADULT'')) \<and>
      (ageOf tza now (birthDateOf tza (js_split CHR ''/'' dob)) = None \<longrightarrow>
         passengerType' (deriveAttributes tza now dob g) = ''ADULT''))"
  by (simp add: deriveAttributes_unparseable deriveAttributes_type num_less_def)

theorem derive_brackets_witness:
  "length (js_split CHR ''/'' ''abc'') \<noteq> 3 \<and>
   deriveAttributes 0 1735689600000 ''abc'' ''MALE'' = \<lparr>title' = [], passengerType' = ''ADULT''\<rparr> \<and>
   length (js_split CHR ''/'' ''01/01/2023'') = 3 \<and>
   ageOf 0 1735689600000 (birthDateOf 0 (js_split CHR ''/'' ''01/01/2023'')) = Some 2 \<and>
   passengerType' (deriveAttributes 0 1735689600000 ''01/01/2023'' ''MALE'') = ''CHILD'' \<and>
   length (js_split CHR ''/'' ''02/01/2023'') = 3 \<and>
   ageOf 0 1735689600000 (birthDateOf 0 (js_split CHR ''/'' ''02/01/2023'')) = Some 1 \<and>
   passengerType' (deriveAttributes 0 1735689600000 ''02/01/2023'' ''MALE'') = ''INFANT''"
proof -
  have 1: "length (js_split CHR ''/'' ''abc'') \<noteq> 3" by code_simp
  have 2: "length (js_split CHR ''/'' ''01/01/2023'') = 3" by code_simp
  have 3: "ageOf 0 1735689600000 (birthDateOf 0 (js_split CHR ''/'' ''01/01/2023'')) = Some 2"
    by code_simp
  have 4: "length (js_split CHR ''/'' ''02/01/2023'') = 3" by code_simp
  have 5: "ageOf 0 1735689600000 (birthDateOf 0 (js_split CHR ''/'' ''02/01/2023'')) = Some 1"
    by code_simp
  from derive_brackets [of "''abc''" 0 1735689600000 "''MALE''"]
    derive_brackets [of "''01/01/2023''" 0 1735689600000 "''MALE''"]
    derive_brackets [of "''02/01/2023''" 0 1735689600000 "''MALE''"]
    1 2 3 4 5
  show ?thesis by simp
qed

section \<open>Properties of the sort and filter engine\<close>

lemma parts_incomplete: "js_split CHR ''/'' ''12/05/'' = [''12'', ''05'', '''']"
  by code_simp

lemma parseInt_empty: "parseInt [] = None"
  by (simp add: parseInt_def)

lemma birthDateOf_incomplete: "birthDateOf tza [''12'', ''05'', ''''] = None"
  by (simp add: birthDateOf_def newDate_def parseInt_empty)

lemma passesFilter_incomplete: "passesFilter tza exampleFilter (expiring ''12/05/'')"
  by (simp add: passesFilter_def exampleFilter_def expiring_def dateFieldValue_def truthy_def
      orEmpty_def parts_incomplete birthDateOf_incomplete num_less_def Let_def
      split: option.split)

lemma exampleFilter_active: "startDate exampleFilter \<noteq> []"
  by (simp add: exampleFilter_def)

text \<open>
  Claim C8 says that an active filter keeps exactly the records whose date lies in the
  range, the two boundary dates included, and drops every record whose value does not
  parse. The code at four inputs, with the filter on the expiry date from 2025-01-01 to
  2025-12-31: a value of three parts that give no date, \<^verbatim>\<open>12/05/\<close>, is kept in every
  time zone, since every comparison with an Invalid Date is false; the two boundary
  dates are both kept in UTC, but the lower one is dropped east of UTC (here UTC+5:30)
  and the upper one west of it (here UTC-5), since the bounds are read as UTC and the
  record's date as local time.
\<close>

theorem filter_keeps_incomplete_date:
  "filteredAndSortedPassports tza [expiring ''12/05/''] exampleFilter \<lparr>key = None, order = asc\<rparr> =
     [expiring ''12/05/''] \<and>
   filteredAndSortedPassports 0 [expiring ''01/01/2025'', expiring ''31/12/2025'']
     exampleFilter \<lparr>key = None, order = asc\<rparr> = [expiring ''01/01/2025'', expiring ''31/12/2025''] \<and>
   filteredAndSortedPassports 19800000 [expiring ''01/01/2025'', expiring ''31/12/2025'']
     exampleFilter \<lparr>key = None, order = asc\<rparr> = [expiring ''31/12/2025''] \<and>
   filteredAndSortedPassports (- 18000000) [expiring ''01/01/2025'', expiring ''31/12/2025'']
     exampleFilter \<lparr>key = None, order = asc\<rparr> = [expiring ''01/01/2025'']"
proof -
  have 1: "filteredAndSortedPassports tza [expiring ''12/05/''] exampleFilter
      \<lparr>key = None, order = asc\<rparr> = [expiring ''12/05/'']"
    by (simp add: filteredAndSortedPassports_def passesFilter_incomplete exampleFilter_active)
  have 2: "filteredAndSortedPassports 0 [expiring ''01/01/2025'', expiring ''31/12/2025'']
     exampleFilter \<lparr>key = None, order = asc\<rparr> = [expiring ''01/01/2025'', expiring ''31/12/2025'']"
    by code_simp
  have 3: "filteredAndSortedPassports 19800000 [expiring ''01/01/2025'', expiring ''31/12/2025'']
     exampleFilter \<lparr>key = None, order = asc\<rparr> = [expiring ''31/12/2025'']"
    by code_simp
  have 4: "filteredAndSortedPassports (- 18000000) [expiring ''01/01/2025'', expiring ''31/12/2025'']
     exampleFilter \<lparr>key = None, order = asc\<rparr> = [expiring ''01/01/2025'']"
    by code_simp
  from 1 2 3 4 show ?thesis by simp
qed

theorem filter_keeps_incomplete_date_witness:
  "startDate exampleFilter \<noteq> [] \<and>
   birthDateOf 19800000 (js_split CHR ''/'' ''12/05/'') = None \<and>
   filteredAndSortedPassports 19800000 [expiring ''12/05/''] exampleFilter
     \<lparr>key = None, order = asc\<rparr> = [expiring ''12/05/'']"
  using filter_keeps_incomplete_date [of 19800000]
  by (simp add: exampleFilter_active parts_incomplete birthDateOf_incomplete)

section \<open>Properties of the two editors\<close>

lemma upperChar_lower:
  "97 \<le> (of_char c :: nat) \<Longrightarrow> (of_char c :: nat) \<le> 122 \<Longrightarrow>
   upperChar c = char_of (of_char c - 32 :: nat)"
  by (simp add: upperChar_def Let_def)

lemma upperChar_other:
  "\<not> (97 \<le> (of_char c :: nat) \<and> (of_char c :: nat) \<le> 122) \<Longrightarrow> upperChar c = c"
  by (auto simp add: upperChar_def Let_def)

lemma upperChar_not_lower:
  "\<not> (97 \<le> (of_char (upperChar c) :: nat) \<and> (of_char (upperChar c) :: nat) \<le> 122)"
proof (cases "97 \<le> (of_char c :: nat) \<and> (of_char c :: nat) \<le> 122")
  case True
  then have lo: "97 \<le> (of_char c :: nat)" and hi: "(of_char c :: nat) \<le> 122" by simp_all
  from hi have "(of_char c - 32 :: nat) < 256" by arith
  then have m: "(of_char c - 32 :: nat) mod 256 = of_char c - 32" by (rule mod_less)
  have "(of_char (upperChar c) :: nat) = of_char c - 32"
    by (simp only: upperChar_lower [OF lo hi] of_char_of m)
  moreover from hi have "\<not> 97 \<le> (of_char c - 32 :: nat)" by arith
  ultimately show ?thesis by simp
next
  case False
  then show ?thesis by (simp only: upperChar_other [OF False] not_False_eq_True)
qed

lemma upperChar_idem: "upperChar (upperChar c) = upperChar c"
  by (rule upperChar_other) (rule upperChar_not_lower)

lemma toUpperCase_idem: "toUpperCase (toUpperCase s) = toUpperCase s"
  by (simp add: toUpperCase_def upperChar_idem)

lemma getField_editedRecord:
  "k = key_firstName \<or> k = key_lastName \<Longrightarrow> getField k (editedRecord tza now k v p) = Some v"
  by (auto simp: editedRecord_def setField_def getField_def Let_def)

lemma edited_name_stored:
  assumes k: "k = key_firstName \<or> k = key_lastName"
      and p: "p \<in> set (updatedSnapshot tza now i k v prev)" and i: "id' p = i"
  shows "getField k p = Some v"
proof -
  define ul where "ul = map (\<lambda>p. if id' p \<noteq> i then p else editedRecord tza now k v p) prev"
  have ul: "q \<in> set ul \<Longrightarrow> id' q = i \<Longrightarrow> getField k q = Some v" for q
    using k by (auto simp: ul_def getField_editedRecord)
  have fl: "getField k (q\<lparr>isDuplicate := b\<rparr>) = getField k q" for q b
    by (cases k) (simp_all add: getField_def)
  show ?thesis
  proof (cases rule: updatedSnapshot_cases
      [where tza = tza and now = now and i = i and fld = k and v = v and prev = prev])
    case none
    with p have "p \<in> set ul" by (simp add: ul_def)
    then show ?thesis using i by (rule ul)
  next
    case (flag t)
    from flag(3) have res: "updatedSnapshot tza now i k v prev =
        map (\<lambda>p. if id' p = i then p\<lparr>isDuplicate := Some (checkIsDuplicate t i ul)\<rparr> else p) ul"
      by (simp add: ul_def)
    from p res obtain q where q: "q \<in> set ul"
      and pq: "p = (if id' q = i then q\<lparr>isDuplicate := Some (checkIsDuplicate t i ul)\<rparr> else q)"
      by auto
    from pq i have qi: "id' q = i" by (cases "id' q = i") simp_all
    with pq have "getField k p = getField k q" by (simp add: fl)
    with ul [OF q qi] show ?thesis by simp
  next
    case (keep t)
    with p have "p \<in> set ul" by (simp add: ul_def)
    then show ?thesis using i by (rule ul)
  qed
qed

lemma table_edit_upper_cases:
  assumes "k = key_firstName \<or> k = key_lastName"
      and "p \<in> set (present (PassportTable_onChange tza now item k v h))" and "id' p = id' item"
  shows "getField k p = Some (toUpperCase v) \<and> toUpperCase (toUpperCase v) = toUpperCase v"
proof -
  from assms(1) have "PassportTable_onChange tza now item k v h =
      updatePassport tza now (id' item) k (toUpperCase v) h"
    by (auto simp: PassportTable_onChange_def)
  with assms(2) have "p \<in> set (updatedSnapshot tza now (id' item) k (toUpperCase v) (present h))"
    by (simp add: present_updatePassport)
  from edited_name_stored [OF assms(1) this assms(3)] show ?thesis
    by (simp add: toUpperCase_idem)
qed

text \<open>
  Claim C9 says that a first or last name edited through any entry point is stored
  upper-cased. The table does so (\<open>table_edit_upper_cases\<close>); the detail editor
  stores the text as typed: here \<^verbatim>\<open>ann\<close>, which the table stores as \<^verbatim>\<open>ANN\<close>.
\<close>

theorem detail_editor_keeps_case:
  "map firstName (present (DetailEditor_onChange tza now (exampleRecord ''a'' ''ANN'' ''LEE'' ''P1'')
      key_firstName ''ann'' twoRecords)) = [Some ''ann'', Some ''BOB''] \<and>
   toUpperCase ''ann'' \<noteq> ''ann'' \<and>
   map firstName (present (PassportTable_onChange tza now (exampleRecord ''a'' ''ANN'' ''LEE'' ''P1'')
      key_firstName ''ann'' twoRecords)) = [Some ''ANN'', Some ''BOB'']"
proof -
  have u: "toUpperCase ''ann'' = ''ANN''" by code_simp
  have 1: "map firstName (present (updatePassport tza now ''a'' key_firstName w twoRecords)) =
      [Some w, Some ''BOB'']" for w
    by (simp add: present_updatePassport updatedSnapshot_def editedRecord_def setField_def
        twoRecords_def exampleRecord_def Let_def)
  have i: "id' (exampleRecord ''a'' ''ANN'' ''LEE'' ''P1'') = ''a''" by (simp add: exampleRecord_def)
  show ?thesis
    by (simp add: DetailEditor_onChange_def PassportTable_onChange_def i 1 u)
qed

end
